theory Spec2Isabelle
  imports Main "HOL-Library.Sublist"
begin

section \<open>Data model\<close>

text \<open>
  The entities of the dashboard, as the stores and the pages use them. A JavaScript
  \<open>Date\<close> is its time value: the number of milliseconds since the epoch, read in the
  local time zone, which is taken to have a fixed offset (every local day has
  \<open>86400000\<close> milliseconds). Record fields carry a prefix (\<open>d_\<close> for a driver, \<open>r_\<close> for
  a route, \<open>u_\<close> for a patch), since \<open>id\<close> and \<open>name\<close> are shared by both entities.
\<close>

type_synonym Date = int

datatype Status = Available | Assigned | On_leave

record Driver =
  d_id :: string
  d_name :: string
  d_phone :: string
  d_licenseId :: string
  d_status :: Status
  d_createdAt :: Date
  d_updatedAt :: Date

text \<open>
  The route entity as \<open>RouteForm\<close> builds it and \<open>routeStore\<close> completes it.
  \<open>r_startTime\<close> and \<open>r_endTime\<close> hold the instants that \<open>new Date(route.startTime)\<close>
  and \<open>new Date(route.endTime)\<close> yield; \<open>r_assignedDriverId\<close> is \<open>None\<close> for
  \<open>undefined\<close>.
\<close>

record Route =
  r_id :: string
  r_routeCode :: string
  r_origin :: string
  r_destination :: string
  r_startTime :: Date
  r_endTime :: Date
  r_assignedDriverId :: "string option"
  r_createdAt :: Date
  r_updatedAt :: Date

text \<open>\<open>Omit<Driver, 'id' | 'createdAt' | 'updatedAt'>\<close>, the argument of \<open>addDriver\<close>.\<close>

record DriverInput =
  i_name :: string
  i_phone :: string
  i_licenseId :: string
  i_status :: Status

text \<open>
  \<open>Partial<Omit<Driver, 'id' | 'createdAt' | 'updatedAt'>>\<close>: a field is \<open>None\<close> when
  the patch does not have the key.
\<close>

record DriverUpdates =
  u_name :: "string option"
  u_phone :: "string option"
  u_licenseId :: "string option"
  u_status :: "Status option"

text \<open>
  The patch of a route. \<open>assignedDriverId\<close> is optional in the entity as well, so the
  patch may lack the key (\<open>None\<close>) or set it, also to \<open>undefined\<close> (\<open>Some None\<close>).
\<close>

record RouteUpdates =
  ru_routeCode :: "string option"
  ru_origin :: "string option"
  ru_destination :: "string option"
  ru_startTime :: "Date option"
  ru_endTime :: "Date option"
  ru_assignedDriverId :: "string option option"

section \<open>Driver store\<close>

text \<open>
  Every action takes the current \<open>drivers\<close> array and returns the new one together
  with the lines it writes with \<open>console.log\<close>. The environment is passed in: \<open>uuid\<close>
  is the result of \<open>uuidv4()\<close>, \<open>now1\<close> and \<open>now2\<close> are the results of the two
  \<open>new Date()\<close> of \<open>addDriver\<close>, in evaluation order. \<open>updateDriver\<close> evaluates
  \<open>new Date()\<close> inside the callback of \<open>map\<close>, once for each driver that has the id:
  \<open>now k\<close> is the reading taken for the driver at index \<open>k\<close> of the array (no clock is
  read for a driver with another id).
\<close>

definition getDriver :: "string \<Rightarrow> Driver list \<Rightarrow> Driver option" where
  "getDriver i drivers = find (\<lambda>driver. d_id driver = i) drivers"

definition getDriversByStatus :: "Status \<Rightarrow> Driver list \<Rightarrow> Driver list" where
  "getDriversByStatus s drivers = filter (\<lambda>driver. d_status driver = s) drivers"

definition addDriver ::
  "DriverInput \<Rightarrow> string \<Rightarrow> Date \<Rightarrow> Date \<Rightarrow> Driver list \<Rightarrow> Driver list \<times> string list" where
  "addDriver driver uuid now1 now2 drivers =
     (let newDriver = \<lparr>d_id = uuid, d_name = i_name driver, d_phone = i_phone driver,
                        d_licenseId = i_licenseId driver, d_status = i_status driver,
                        d_createdAt = now1, d_updatedAt = now2\<rparr>
      in (drivers @ [newDriver],
          [''Driver added: '' @ d_name newDriver @ '' ('' @ d_id newDriver @ '')'']))"

definition mergeDriver :: "Driver \<Rightarrow> DriverUpdates \<Rightarrow> Date \<Rightarrow> Driver" where
  "mergeDriver driver updates now =
     driver\<lparr>d_name := (case u_name updates of None \<Rightarrow> d_name driver | Some v \<Rightarrow> v),
            d_phone := (case u_phone updates of None \<Rightarrow> d_phone driver | Some v \<Rightarrow> v),
            d_licenseId := (case u_licenseId updates of None \<Rightarrow> d_licenseId driver | Some v \<Rightarrow> v),
            d_status := (case u_status updates of None \<Rightarrow> d_status driver | Some v \<Rightarrow> v),
            d_updatedAt := now\<rparr>"

definition updateDriver ::
  "string \<Rightarrow> DriverUpdates \<Rightarrow> (nat \<Rightarrow> Date) \<Rightarrow> Driver list \<Rightarrow>
     Driver list \<times> string list" where
  "updateDriver i updates now drivers =
     (let drivers' = map (\<lambda>(k, driver). if d_id driver = i
                                          then mergeDriver driver updates (now k)
                                          else driver) (enumerate 0 drivers)
      in (drivers',
          case getDriver i drivers' of
            Some driver \<Rightarrow> [''Driver updated: '' @ d_name driver @ '' ('' @ i @ '')'']
          | None \<Rightarrow> []))"

definition deleteDriver :: "string \<Rightarrow> Driver list \<Rightarrow> Driver list \<times> string list" where
  "deleteDriver i drivers =
     (let driver = getDriver i drivers
      in (filter (\<lambda>driver. d_id driver \<noteq> i) drivers,
          case driver of
            Some driver \<Rightarrow> [''Driver deleted: '' @ d_name driver @ '' ('' @ i @ '')'']
          | None \<Rightarrow> []))"

section \<open>Route store\<close>

definition getRoute :: "string \<Rightarrow> Route list \<Rightarrow> Route option" where
  "getRoute i routes = find (\<lambda>route. r_id route = i) routes"

definition mergeRoute :: "Route \<Rightarrow> RouteUpdates \<Rightarrow> Date \<Rightarrow> Route" where
  "mergeRoute route updates now =
     route\<lparr>r_routeCode := (case ru_routeCode updates of None \<Rightarrow> r_routeCode route | Some v \<Rightarrow> v),
           r_origin := (case ru_origin updates of None \<Rightarrow> r_origin route | Some v \<Rightarrow> v),
           r_destination :=
             (case ru_destination updates of None \<Rightarrow> r_destination route | Some v \<Rightarrow> v),
           r_startTime := (case ru_startTime updates of None \<Rightarrow> r_startTime route | Some v \<Rightarrow> v),
           r_endTime := (case ru_endTime updates of None \<Rightarrow> r_endTime route | Some v \<Rightarrow> v),
           r_assignedDriverId :=
             (case ru_assignedDriverId updates of None \<Rightarrow> r_assignedDriverId route | Some v \<Rightarrow> v),
           r_updatedAt := now\<rparr>"

text \<open>As in the driver store, \<open>now k\<close> is the clock reading for the route at index \<open>k\<close>.\<close>

definition updateRoute ::
  "string \<Rightarrow> RouteUpdates \<Rightarrow> (nat \<Rightarrow> Date) \<Rightarrow> Route list \<Rightarrow>
     Route list \<times> string list" where
  "updateRoute i updates now routes =
     (let routes' = map (\<lambda>(k, route). if r_id route = i
                                        then mergeRoute route updates (now k)
                                        else route) (enumerate 0 routes)
      in (routes',
          case getRoute i routes' of
            Some route \<Rightarrow> [''Route updated: '' @ r_routeCode route @ '' ('' @ i @ '')'']
          | None \<Rightarrow> []))"

definition deleteRoute :: "string \<Rightarrow> Route list \<Rightarrow> Route list \<times> string list" where
  "deleteRoute i routes =
     (let route = getRoute i routes
      in (filter (\<lambda>route. r_id route \<noteq> i) routes,
          case route of
            Some route \<Rightarrow> [''Route deleted: '' @ r_routeCode route @ '' ('' @ i @ '')'']
          | None \<Rightarrow> []))"

definition getRoutesByDriver :: "string \<Rightarrow> Route list \<Rightarrow> Route list" where
  "getRoutesByDriver driverId routes =
     filter (\<lambda>route. r_assignedDriverId route = Some driverId) routes"

text \<open>
  JavaScript truthiness of an optional string: \<open>undefined\<close> and the empty string are
  falsy, every other string is truthy.
\<close>

fun truthy :: "string option \<Rightarrow> bool" where
  "truthy None = False"
| "truthy (Some s) = (s \<noteq> [])"

definition getUnassignedRoutes :: "Route list \<Rightarrow> Route list" where
  "getUnassignedRoutes routes = filter (\<lambda>route. \<not> truthy (r_assignedDriverId route)) routes"

text \<open>
  The routes that \<open>getRoutesByDriver\<close> returns for at least one of the current drivers:
  the union the specification takes the complement of.
\<close>

definition routesOfCurrentDrivers :: "Driver list \<Rightarrow> Route list \<Rightarrow> Route set" where
  "routesOfCurrentDrivers drivers routes =
     (\<Union>driver \<in> set drivers. set (getRoutesByDriver (d_id driver) routes))"

section \<open>Dashboard projections\<close>

text \<open>
  A \<open>char\<close> stands for a code unit of a JavaScript string, and
  \<open>String.prototype.includes\<close> is the test for a contiguous substring.
  \<open>String.prototype.toLowerCase\<close> belongs to the environment: it folds every cased
  letter of Unicode and depends on the context of a letter, so it is no map over the
  characters. The search takes it as the parameter \<open>toLowerCase\<close>. What is fixed about
  it is its value on ASCII text, where it replaces \<open>A\<close> to \<open>Z\<close> by \<open>a\<close> to \<open>z\<close> and
  keeps every other character: \<open>asciiToLowerCase\<close>, and \<open>foldsAscii\<close> says that a case
  folding agrees with it there.
\<close>

definition toLowerChar :: "char \<Rightarrow> char" where
  "toLowerChar c =
     (let n = (of_char c :: nat) in if 65 \<le> n \<and> n \<le> 90 then char_of (n + 32) else c)"

definition asciiToLowerCase :: "string \<Rightarrow> string" where
  "asciiToLowerCase s = map toLowerChar s"

definition isAscii :: "string \<Rightarrow> bool" where
  "isAscii s = list_all (\<lambda>c. (of_char c :: nat) < 128) s"

definition foldsAscii :: "(string \<Rightarrow> string) \<Rightarrow> bool" where
  "foldsAscii toLowerCase = (\<forall>s. isAscii s \<longrightarrow> toLowerCase s = asciiToLowerCase s)"

definition includes_str :: "string \<Rightarrow> string \<Rightarrow> bool" where
  "includes_str s searchString = sublist searchString s"

datatype RouteFilter = RF_all | RF_assigned | RF_unassigned

datatype DriverFilter = DF_all | DF_available | DF_assigned | DF_on_leave

text \<open>
  \<open>filteredRoutes\<close> and \<open>filteredDrivers\<close> of the dashboard page. Each runs two steps
  on the store's snapshot, the search and then the status filter; the steps are named
  here so that they can also be composed the other way round.
\<close>

definition routeSearchStep :: "(string \<Rightarrow> string) \<Rightarrow> string \<Rightarrow> Route list \<Rightarrow> Route list" where
  "routeSearchStep toLowerCase routeSearch filtered =
     (if routeSearch \<noteq> [] then
        filter (\<lambda>route.
          includes_str (toLowerCase (r_routeCode route)) (toLowerCase routeSearch) \<or>
          includes_str (toLowerCase (r_origin route)) (toLowerCase routeSearch) \<or>
          includes_str (toLowerCase (r_destination route)) (toLowerCase routeSearch)) filtered
      else filtered)"

definition routeStatusStep :: "RouteFilter \<Rightarrow> Route list \<Rightarrow> Route list" where
  "routeStatusStep routeFilter filtered =
     (case routeFilter of
        RF_assigned \<Rightarrow> filter (\<lambda>route. truthy (r_assignedDriverId route)) filtered
      | RF_unassigned \<Rightarrow> filter (\<lambda>route. \<not> truthy (r_assignedDriverId route)) filtered
      | RF_all \<Rightarrow> filtered)"

definition filteredRoutes ::
  "(string \<Rightarrow> string) \<Rightarrow> Route list \<Rightarrow> RouteFilter \<Rightarrow> string \<Rightarrow> Route list" where
  "filteredRoutes toLowerCase routes routeFilter routeSearch =
     routeStatusStep routeFilter (routeSearchStep toLowerCase routeSearch routes)"

definition driverSearchStep ::
  "(string \<Rightarrow> string) \<Rightarrow> string \<Rightarrow> Driver list \<Rightarrow> Driver list" where
  "driverSearchStep toLowerCase driverSearch filtered =
     (if driverSearch \<noteq> [] then
        filter (\<lambda>driver.
          includes_str (toLowerCase (d_name driver)) (toLowerCase driverSearch) \<or>
          includes_str (toLowerCase (d_licenseId driver)) (toLowerCase driverSearch) \<or>
          includes_str (d_phone driver) driverSearch) filtered
      else filtered)"

definition driverStatusStep :: "DriverFilter \<Rightarrow> Driver list \<Rightarrow> Driver list" where
  "driverStatusStep driverFilter filtered =
     (case driverFilter of
        DF_available \<Rightarrow> filter (\<lambda>driver. d_status driver = Available) filtered
      | DF_assigned \<Rightarrow> filter (\<lambda>driver. d_status driver = Assigned) filtered
      | DF_on_leave \<Rightarrow> filter (\<lambda>driver. d_status driver = On_leave) filtered
      | DF_all \<Rightarrow> filtered)"

definition filteredDrivers ::
  "(string \<Rightarrow> string) \<Rightarrow> Driver list \<Rightarrow> DriverFilter \<Rightarrow> string \<Rightarrow> Driver list" where
  "filteredDrivers toLowerCase drivers driverFilter driverSearch =
     driverStatusStep driverFilter (driverSearchStep toLowerCase driverSearch drivers)"

section \<open>Calendar availability\<close>

text \<open>
  The functions of \<open>date-fns\<close> and of \<open>Date\<close> that the calendar calls, on time values.
  \<open>isSameDay\<close> compares the starts of the two local days. \<open>setHours day h\<close> is
  \<open>setHours(h, 0, 0, 0)\<close> on a copy of \<open>day\<close>: the local day of \<open>day\<close> at \<open>h\<close> o'clock
  sharp. \<open>isWithinInterval\<close> includes both end points; the library (from its version 3
  on) puts the two end points in ascending order before it compares.
\<close>

definition msPerHour :: int where
  "msPerHour = 3600000"

definition msPerDay :: int where
  "msPerDay = 24 * msPerHour"

definition startOfDay :: "Date \<Rightarrow> Date" where
  "startOfDay date = date - date mod msPerDay"

definition isSameDay :: "Date \<Rightarrow> Date \<Rightarrow> bool" where
  "isSameDay laterDate earlierDate = (startOfDay laterDate = startOfDay earlierDate)"

definition setHours :: "Date \<Rightarrow> int \<Rightarrow> Date" where
  "setHours day h = startOfDay day + h * msPerHour"

definition isWithinInterval :: "Date \<Rightarrow> Date \<Rightarrow> Date \<Rightarrow> bool" where
  "isWithinInterval date intervalStart intervalEnd =
     (let startTime = min intervalStart intervalEnd; endTime = max intervalStart intervalEnd
      in startTime \<le> date \<and> date \<le> endTime)"

record TimeSlot =
  hour :: int
  label :: string
  isAM :: bool

record DriverAvailability =
  av_driver :: Driver
  av_status :: Status
  av_route :: "Route option"

text \<open>The predicate that \<open>getDriverAvailability\<close> hands to \<open>routes.find\<close>.\<close>

definition routeInSlot :: "Driver \<Rightarrow> Date \<Rightarrow> TimeSlot \<Rightarrow> Route \<Rightarrow> bool" where
  "routeInSlot driver day timeSlot route =
     (if r_assignedDriverId route \<noteq> Some (d_id driver) then False
      else
        let routeStart = r_startTime route; routeEnd = r_endTime route
        in if \<not> isSameDay routeStart day then False
           else
             let slotStart = setHours day (hour timeSlot);
                 slotEnd = setHours day (hour timeSlot + 1)
             in isWithinInterval slotStart routeStart routeEnd \<or>
                isWithinInterval routeStart slotStart slotEnd)"

definition getDriverAvailability ::
  "Route list \<Rightarrow> Driver \<Rightarrow> Date \<Rightarrow> TimeSlot \<Rightarrow> DriverAvailability" where
  "getDriverAvailability routes driver day timeSlot =
     (if d_status driver = On_leave
      then \<lparr>av_driver = driver, av_status = On_leave, av_route = None\<rparr>
      else
        case find (routeInSlot driver day timeSlot) routes of
          Some assignedRoute \<Rightarrow>
            \<lparr>av_driver = driver, av_status = Assigned, av_route = Some assignedRoute\<rparr>
        | None \<Rightarrow> \<lparr>av_driver = driver, av_status = Available, av_route = None\<rparr>)"

text \<open>
  The overlap test in the words of the specification: the slot start lies in the closed
  interval from the route start to the route end, or the route start lies in the
  half-open interval from the slot start up to, and without, the slot end.
\<close>

definition specOverlap :: "Date \<Rightarrow> Date \<Rightarrow> Date \<Rightarrow> Date \<Rightarrow> bool" where
  "specOverlap routeStart routeEnd slotStart slotEnd =
     ((routeStart \<le> slotStart \<and> slotStart \<le> routeEnd) \<or>
      (slotStart \<le> routeStart \<and> routeStart < slotEnd))"

text \<open>
  The entities of the scenarios: Jane Doe and route RT001 on 2024-01-01, the day
  \<open>19723\<close> of the epoch, from \<open>h1\<close> to \<open>h2\<close> o'clock.
\<close>

definition day_2024_01_01 :: Date where
  "day_2024_01_01 = 19723 * msPerDay"

definition jane :: Driver where
  "jane = \<lparr>d_id = ''d1'', d_name = ''Jane Doe'', d_phone = ''+15551234567'',
           d_licenseId = ''LIC123'', d_status = Available,
           d_createdAt = day_2024_01_01, d_updatedAt = day_2024_01_01\<rparr>"

definition rt001 :: "int \<Rightarrow> int \<Rightarrow> Route" where
  "rt001 h1 h2 =
     \<lparr>r_id = ''r1'', r_routeCode = ''RT001'', r_origin = ''A'', r_destination = ''B'',
      r_startTime = day_2024_01_01 + h1 * msPerHour,
      r_endTime = day_2024_01_01 + h2 * msPerHour,
      r_assignedDriverId = Some ''d1'',
      r_createdAt = day_2024_01_01, r_updatedAt = day_2024_01_01\<rparr>"

definition slotAt :: "int \<Rightarrow> TimeSlot" where
  "slotAt h = \<lparr>hour = h, label = [], isAM = (h < 12)\<rparr>"

section \<open>The specification's reading\<close>

text \<open>
  The three-way classification with the overlap test in the specification's words.
\<close>

definition specClassification :: "Route list \<Rightarrow> Driver \<Rightarrow> Date \<Rightarrow> TimeSlot \<Rightarrow> Status" where
  "specClassification routes driver day timeSlot =
     (if d_status driver = On_leave then On_leave
      else if list_ex (\<lambda>route.
                r_assignedDriverId route = Some (d_id driver) \<and>
                isSameDay (r_startTime route) day \<and>
                specOverlap (r_startTime route) (r_endTime route)
                  (setHours day (hour timeSlot)) (setHours day (hour timeSlot + 1))) routes
      then Assigned else Available)"

text \<open>
  The driver search in the specification's words: the query, compared without regard to
  case, is a substring of the name, of the licence id or of the phone.
\<close>

definition specDriverMatches :: "(string \<Rightarrow> string) \<Rightarrow> string \<Rightarrow> Driver \<Rightarrow> bool" where
  "specDriverMatches toLowerCase driverSearch driver =
     (sublist (toLowerCase driverSearch) (toLowerCase (d_name driver)) \<or>
      sublist (toLowerCase driverSearch) (toLowerCase (d_licenseId driver)) \<or>
      sublist (toLowerCase driverSearch) (toLowerCase (d_phone driver)))"

text \<open>A letter \<open>A\<close> to \<open>Z\<close> or \<open>a\<close> to \<open>z\<close>; a validated phone number has none.\<close>

definition isLetter :: "char \<Rightarrow> bool" where
  "isLetter c =
     (let n = (of_char c :: nat) in (65 \<le> n \<and> n \<le> 90) \<or> (97 \<le> n \<and> n \<le> 122))"

text \<open>
  The unassigned routes in the specification's words: the routes that have no
  \<open>assignedDriverId\<close>.
\<close>

definition specUnassignedRoutes :: "Route list \<Rightarrow> Route list" where
  "specUnassignedRoutes routes = filter (\<lambda>route. r_assignedDriverId route = None) routes"

text \<open>A clock that reads \<open>t\<close> at every evaluation of \<open>new Date()\<close>.\<close>

definition clockAt :: "Date \<Rightarrow> nat \<Rightarrow> Date" where
  "clockAt t k = t"

text \<open>The patch \<open>{ status: 'on_leave' }\<close>.\<close>

definition onLeavePatch :: DriverUpdates where
  "onLeavePatch =
     \<lparr>u_name = None, u_phone = None, u_licenseId = None, u_status = Some On_leave\<rparr>"

text \<open>The input of the scenario that adds Jane Doe.\<close>

definition janeInput :: DriverInput where
  "janeInput = \<lparr>i_name = ''Jane Doe'', i_phone = ''+15551234567'',
                i_licenseId = ''LIC123'', i_status = Available\<rparr>"

section \<open>Lemmas on lists\<close>

lemma find_absent: "i \<notin> f ` set xs \<Longrightarrow> find (\<lambda>x. f x = i) xs = None"
  by (induction xs) auto

lemma map_absent:
  "i \<notin> f ` set xs \<Longrightarrow>
   map (\<lambda>(k, x). if f x = i then g k x else x) (enumerate n xs) = xs"
  by (induction xs arbitrary: n) auto

lemma nth_map_enumerate:
  "k < length xs \<Longrightarrow> map (\<lambda>(k, x). h k x) (enumerate n xs) ! k = h (n + k) (xs ! k)"
  by (simp add: nth_enumerate_eq)

lemma filter_absent: "i \<notin> f ` set xs \<Longrightarrow> filter (\<lambda>x. f x \<noteq> i) xs = xs"
  by (induction xs) auto

lemma find_append_fresh:
  "i \<notin> f ` set xs \<Longrightarrow> f y = i \<Longrightarrow> find (\<lambda>x. f x = i) (xs @ [y]) = Some y"
  by (induction xs) auto

lemma find_map_update:
  assumes "find (\<lambda>x. f x = i) xs = Some d" and "\<And>k x. f (g k x) = f x"
  shows "\<exists>k < length xs. xs ! k = d \<and>
           find (\<lambda>x. f x = i)
             (map (\<lambda>(k, x). if f x = i then g k x else x) (enumerate n xs)) = Some (g (n + k) d)"
  using assms(1)
proof (induction xs arbitrary: n)
  case Nil
  then show ?case by simp
next
  case (Cons x xs)
  show ?case
  proof (cases "f x = i")
    case True
    with Cons.prems have "x = d" by simp
    with True show ?thesis
      by (intro exI [of _ 0]) (simp add: assms(2))
  next
    case False
    with Cons.prems have "find (\<lambda>x. f x = i) xs = Some d" by simp
    from Cons.IH [OF this, of "Suc n"] obtain k where
      k: "k < length xs" "xs ! k = d"
        "find (\<lambda>x. f x = i)
           (map (\<lambda>(k, x). if f x = i then g k x else x) (enumerate (Suc n) xs)) =
         Some (g (Suc n + k) d)"
      by blast
    with False show ?thesis
      by (intro exI [of _ "Suc k"]) simp
  qed
qed

lemma find_removed: "find (\<lambda>x. f x = i) (filter (\<lambda>x. f x \<noteq> i) xs) = None"
  by (induction xs) auto

lemma find_first_of_filter: "filter P xs = r # rest \<Longrightarrow> find P xs = Some r"
  by (induction xs) (auto split: if_splits)

lemma find_Some_member: "find P xs = Some x \<Longrightarrow> x \<in> set xs \<and> P x"
  by (induction xs) (auto split: if_splits)

section \<open>Driver and route stores\<close>

text \<open>
  C5, as the code has it. For an input without id and timestamps and an id that no
  stored driver has, \<open>addDriver\<close> followed by \<open>getDriver\<close> with the new id returns the
  driver whose name, phone, licence id and status are the input's, whose \<open>createdAt\<close>
  is the first reading of the clock and whose \<open>updatedAt\<close> is the second: the two are
  equal exactly when the two readings are.
\<close>

theorem addDriver_then_getDriver:
  assumes "uuid \<notin> d_id ` set drivers"
  shows "getDriver uuid (fst (addDriver input uuid now1 now2 drivers)) =
           Some \<lparr>d_id = uuid, d_name = i_name input, d_phone = i_phone input,
                 d_licenseId = i_licenseId input, d_status = i_status input,
                 d_createdAt = now1, d_updatedAt = now2\<rparr>"
  using assms by (simp add: getDriver_def addDriver_def find_append_fresh)

theorem addDriver_then_getDriver_witness:
  "''d2'' \<notin> d_id ` set [jane] \<and>
   getDriver ''d2'' (fst (addDriver janeInput ''d2'' 1000 1000 [jane])) =
     Some \<lparr>d_id = ''d2'', d_name = ''Jane Doe'', d_phone = ''+15551234567'',
           d_licenseId = ''LIC123'', d_status = Available,
           d_createdAt = 1000, d_updatedAt = 1000\<rparr>"
proof -
  have fresh: "''d2'' \<notin> d_id ` set [jane]" by (simp add: jane_def)
  show ?thesis
    using fresh addDriver_then_getDriver [OF fresh, of janeInput 1000 1000]
    by (simp add: janeInput_def)
qed

text \<open>
  The clock may advance between the two \<open>new Date()\<close> of \<open>addDriver\<close>: with the
  readings 1000 and 1001 the stored driver has \<open>createdAt = 1000\<close> and
  \<open>updatedAt = 1001\<close>.
\<close>

theorem addDriver_clock_tick_counterexample:
  "map_option d_createdAt (getDriver ''d1'' (fst (addDriver janeInput ''d1'' 1000 1001 []))) =
     Some 1000 \<and>
   map_option d_updatedAt (getDriver ''d1'' (fst (addDriver janeInput ''d1'' 1000 1001 []))) =
     Some 1001 \<and>
   map_option d_createdAt (getDriver ''d1'' (fst (addDriver janeInput ''d1'' 1000 1001 []))) \<noteq>
     map_option d_updatedAt (getDriver ''d1'' (fst (addDriver janeInput ''d1'' 1000 1001 [])))"
  by (simp add: getDriver_def addDriver_def)

lemma mergeDriver_onLeave:
  "mergeDriver d onLeavePatch t = d\<lparr>d_status := On_leave, d_updatedAt := t\<rparr>"
  by (simp add: mergeDriver_def onLeavePatch_def)

text \<open>
  C6, as the code has it. In a store that has a driver with the id,
  \<open>updateDriver(id, {status: 'on_leave'})\<close> keeps the length and the order of the
  collection, replaces each driver that has the id by itself with \<open>status\<close> set and
  \<open>updatedAt\<close> set to the clock reading taken for it (id, name, phone, licence id and
  \<open>createdAt\<close> as before), and keeps every other driver as it is. The driver's
  \<open>updatedAt\<close> does not decrease exactly when that reading is not earlier than the
  \<open>updatedAt\<close> that was stored.
\<close>

theorem updateDriver_on_leave_frame:
  assumes "getDriver i drivers = Some d"
  shows "let drivers' = fst (updateDriver i onLeavePatch now drivers) in
           length drivers' = length drivers \<and>
           map d_id drivers' = map d_id drivers \<and>
           (\<forall>k < length drivers.
              (d_id (drivers ! k) = i \<longrightarrow>
                 drivers' ! k = (drivers ! k)\<lparr>d_status := On_leave, d_updatedAt := now k\<rparr> \<and>
                 (d_updatedAt (drivers ! k) \<le> d_updatedAt (drivers' ! k) \<longleftrightarrow>
                    d_updatedAt (drivers ! k) \<le> now k)) \<and>
              (d_id (drivers ! k) \<noteq> i \<longrightarrow> drivers' ! k = drivers ! k)) \<and>
           (\<exists>k < length drivers. drivers ! k = d \<and>
              getDriver i drivers' = Some (d\<lparr>d_status := On_leave, d_updatedAt := now k\<rparr>))"
proof -
  let ?g = "\<lambda>k x. mergeDriver x onLeavePatch (now k)"
  define updated where
    "updated = map (\<lambda>(k, x). if d_id x = i then ?g k x else x) (enumerate 0 drivers)"
  have ids: "\<And>k x. d_id (?g k x) = d_id x"
    by (simp add: mergeDriver_onLeave)
  have upd: "fst (updateDriver i onLeavePatch now drivers) = updated"
    by (simp add: updateDriver_def Let_def updated_def)
  have len: "length updated = length drivers"
    by (simp add: updated_def)
  have nth: "updated ! k = (if d_id (drivers ! k) = i then ?g k (drivers ! k) else drivers ! k)"
    if "k < length drivers" for k
    using that by (simp add: updated_def nth_enumerate_eq)
  have same_ids: "map d_id updated = map d_id drivers"
    by (rule nth_equalityI) (simp_all add: len nth ids)
  have found: "\<exists>k < length drivers. drivers ! k = d \<and>
      getDriver i updated = Some (d\<lparr>d_status := On_leave, d_updatedAt := now k\<rparr>)"
    using find_map_update [of d_id i drivers d ?g 0] assms ids
    by (simp add: getDriver_def mergeDriver_onLeave updated_def)
  have frame: "\<forall>k < length drivers.
      (d_id (drivers ! k) = i \<longrightarrow>
         updated ! k = (drivers ! k)\<lparr>d_status := On_leave, d_updatedAt := now k\<rparr> \<and>
         (d_updatedAt (drivers ! k) \<le> d_updatedAt (updated ! k) \<longleftrightarrow>
            d_updatedAt (drivers ! k) \<le> now k)) \<and>
      (d_id (drivers ! k) \<noteq> i \<longrightarrow> updated ! k = drivers ! k)"
    by (simp add: nth mergeDriver_onLeave)
  show ?thesis
    unfolding upd Let_def using len same_ids frame found by blast
qed

theorem updateDriver_on_leave_frame_witness:
  "getDriver ''d1'' [jane\<lparr>d_id := ''d0''\<rparr>, jane] = Some jane \<and>
   fst (updateDriver ''d1'' onLeavePatch (clockAt (day_2024_01_01 + 5))
     [jane\<lparr>d_id := ''d0''\<rparr>, jane]) ! 0 = jane\<lparr>d_id := ''d0''\<rparr> \<and>
   fst (updateDriver ''d1'' onLeavePatch (clockAt (day_2024_01_01 + 5))
     [jane\<lparr>d_id := ''d0''\<rparr>, jane]) ! 1 =
     jane\<lparr>d_status := On_leave, d_updatedAt := day_2024_01_01 + 5\<rparr> \<and>
   d_updatedAt ([jane\<lparr>d_id := ''d0''\<rparr>, jane] ! 1) \<le>
     d_updatedAt (fst (updateDriver ''d1'' onLeavePatch (clockAt (day_2024_01_01 + 5))
       [jane\<lparr>d_id := ''d0''\<rparr>, jane]) ! 1)"
proof -
  have found: "getDriver ''d1'' [jane\<lparr>d_id := ''d0''\<rparr>, jane] = Some jane"
    by (simp add: getDriver_def jane_def)
  have clock: "d_updatedAt ([jane\<lparr>d_id := ''d0''\<rparr>, jane] ! 1) \<le>
      clockAt (day_2024_01_01 + 5) 1"
    by (simp add: jane_def clockAt_def)
  have ids: "d_id ([jane\<lparr>d_id := ''d0''\<rparr>, jane] ! 0) \<noteq> ''d1'' \<and>
      d_id ([jane\<lparr>d_id := ''d0''\<rparr>, jane] ! 1) = ''d1''"
    by (simp add: jane_def)
  have len: "(0::nat) < length [jane\<lparr>d_id := ''d0''\<rparr>, jane] \<and>
      (1::nat) < length [jane\<lparr>d_id := ''d0''\<rparr>, jane]"
    by simp
  have at: "clockAt (day_2024_01_01 + 5) 1 = day_2024_01_01 + 5"
    by (simp add: clockAt_def)
  note inst = updateDriver_on_leave_frame
    [OF found, of "clockAt (day_2024_01_01 + 5)", unfolded Let_def]
  show ?thesis
    using found clock ids len at inst
    by (metis nth_Cons_0 One_nat_def nth_Cons_Suc)
qed

text \<open>
  The clock is the wall clock and may be set back: with a reading one millisecond
  before the stored \<open>updatedAt\<close> the update lowers the driver's \<open>updatedAt\<close>.
\<close>

theorem updateDriver_clock_back_counterexample:
  "getDriver ''d1'' [jane] = Some jane \<and>
   map_option d_updatedAt
     (getDriver ''d1'' (fst (updateDriver ''d1'' onLeavePatch (clockAt (d_updatedAt jane - 1)) [jane]))) =
     Some (d_updatedAt jane - 1) \<and>
   d_updatedAt jane - 1 < d_updatedAt jane"
  by (simp add: getDriver_def updateDriver_def mergeDriver_onLeave clockAt_def jane_def)

text \<open>
  C7. For an id that no driver (no route) has, \<open>updateDriver\<close> and \<open>deleteDriver\<close>
  (\<open>updateRoute\<close> and \<open>deleteRoute\<close>) return the collection as it was, for every patch,
  and write nothing to the console; the functions are total, so no error is raised.
\<close>

theorem update_delete_missing_id_noop:
  assumes "i \<notin> d_id ` set drivers" and "j \<notin> r_id ` set routes"
  shows "updateDriver i updates now drivers = (drivers, []) \<and>
         deleteDriver i drivers = (drivers, []) \<and>
         updateRoute j routeUpdates now routes = (routes, []) \<and>
         deleteRoute j routes = (routes, [])"
  using assms
  by (simp add: updateDriver_def deleteDriver_def updateRoute_def deleteRoute_def
      getDriver_def getRoute_def map_absent filter_absent find_absent)

theorem update_delete_missing_id_noop_witness:
  "''d9'' \<notin> d_id ` set [jane] \<and> ''r9'' \<notin> r_id ` set [rt001 8 10] \<and>
   updateDriver ''d9'' onLeavePatch (clockAt 7) [jane] = ([jane], []) \<and>
   deleteDriver ''d9'' [jane] = ([jane], []) \<and>
   updateRoute ''r9''
     \<lparr>ru_routeCode = Some ''RT002'', ru_origin = None, ru_destination = None,
      ru_startTime = None, ru_endTime = None, ru_assignedDriverId = Some None\<rparr>
     (clockAt 7) [rt001 8 10] =
     ([rt001 8 10], []) \<and>
   deleteRoute ''r9'' [rt001 8 10] = ([rt001 8 10], [])"
proof -
  have d: "''d9'' \<notin> d_id ` set [jane]" by (simp add: jane_def)
  have r: "''r9'' \<notin> r_id ` set [rt001 8 10]" by (simp add: rt001_def)
  show ?thesis
    using d r update_delete_missing_id_noop [OF d r] by simp
qed

text \<open>
  C8. After \<open>deleteDriver(id)\<close> in a store that has a driver with the id,
  \<open>getDriver(id)\<close> finds nothing, neither the deleted driver nor any driver with its id
  is in \<open>getDriversByStatus(s)\<close> for any status \<open>s\<close>, and a second \<open>deleteDriver(id)\<close>
  returns the same collection and writes nothing.
\<close>

theorem deleteDriver_removes_idempotent:
  assumes "getDriver i drivers = Some d"
  shows "getDriver i (fst (deleteDriver i drivers)) = None \<and>
         d \<notin> set (getDriversByStatus s (fst (deleteDriver i drivers))) \<and>
         i \<notin> d_id ` set (getDriversByStatus s (fst (deleteDriver i drivers))) \<and>
         deleteDriver i (fst (deleteDriver i drivers)) = (fst (deleteDriver i drivers), [])"
proof -
  have "d_id d = i"
    using assms by (auto simp: getDriver_def dest: find_Some_member)
  then show ?thesis
    by (auto simp: deleteDriver_def getDriver_def getDriversByStatus_def find_removed)
qed

theorem deleteDriver_removes_idempotent_witness:
  "getDriver ''d1'' [jane\<lparr>d_id := ''d0''\<rparr>, jane] = Some jane \<and>
   getDriver ''d1'' (fst (deleteDriver ''d1'' [jane\<lparr>d_id := ''d0''\<rparr>, jane])) = None \<and>
   jane \<notin> set (getDriversByStatus Available (fst (deleteDriver ''d1'' [jane\<lparr>d_id := ''d0''\<rparr>, jane]))) \<and>
   deleteDriver ''d1'' (fst (deleteDriver ''d1'' [jane\<lparr>d_id := ''d0''\<rparr>, jane])) =
     (fst (deleteDriver ''d1'' [jane\<lparr>d_id := ''d0''\<rparr>, jane]), [])"
proof -
  have found: "getDriver ''d1'' [jane\<lparr>d_id := ''d0''\<rparr>, jane] = Some jane"
    by (simp add: getDriver_def jane_def)
  show ?thesis
    using found deleteDriver_removes_idempotent [OF found, of Available] by simp
qed

lemma routesOfCurrentDrivers_member:
  "route \<in> routesOfCurrentDrivers drivers routes \<longleftrightarrow>
     route \<in> set routes \<and> (\<exists>driver \<in> set drivers. r_assignedDriverId route = Some (d_id driver))"
  by (auto simp: routesOfCurrentDrivers_def getRoutesByDriver_def)

lemma getUnassignedRoutes_falsy:
  "getUnassignedRoutes routes =
     filter (\<lambda>route. r_assignedDriverId route = None \<or> r_assignedDriverId route = Some [])
       routes"
  unfolding getUnassignedRoutes_def
proof (rule filter_cong [OF refl])
  fix route
  show "(\<not> truthy (r_assignedDriverId route)) =
        (r_assignedDriverId route = None \<or> r_assignedDriverId route = Some [])"
    by (cases "r_assignedDriverId route") simp_all
qed

lemma getUnassignedRoutes_member:
  "route \<in> set (getUnassignedRoutes routes) \<longleftrightarrow>
     route \<in> set routes \<and>
     (r_assignedDriverId route = None \<or> r_assignedDriverId route = Some [])"
  by (simp add: getUnassignedRoutes_falsy)

lemma getUnassignedRoutes_spec_iff:
  "getUnassignedRoutes routes = specUnassignedRoutes routes \<longleftrightarrow>
     (\<forall>route \<in> set routes. r_assignedDriverId route \<noteq> Some [])"
proof
  assume eq: "getUnassignedRoutes routes = specUnassignedRoutes routes"
  show "\<forall>route \<in> set routes. r_assignedDriverId route \<noteq> Some []"
  proof
    fix route
    assume "route \<in> set routes"
    show "r_assignedDriverId route \<noteq> Some []"
    proof
      assume "r_assignedDriverId route = Some []"
      with \<open>route \<in> set routes\<close> have "route \<in> set (getUnassignedRoutes routes)"
        by (simp add: getUnassignedRoutes_member)
      with eq have "route \<in> set (specUnassignedRoutes routes)"
        by simp
      with \<open>r_assignedDriverId route = Some []\<close> show False
        by (simp add: specUnassignedRoutes_def)
    qed
  qed
next
  assume "\<forall>route \<in> set routes. r_assignedDriverId route \<noteq> Some []"
  then show "getUnassignedRoutes routes = specUnassignedRoutes routes"
    unfolding getUnassignedRoutes_falsy specUnassignedRoutes_def
    by (intro filter_cong) auto
qed

lemma getUnassignedRoutes_complement_iff:
  "set (getUnassignedRoutes routes) = set routes - routesOfCurrentDrivers drivers routes \<longleftrightarrow>
     (\<forall>route \<in> set routes. \<forall>i. r_assignedDriverId route = Some i \<longrightarrow>
        (i \<noteq> [] \<longleftrightarrow> i \<in> d_id ` set drivers))"
proof
  assume eq: "set (getUnassignedRoutes routes) =
      set routes - routesOfCurrentDrivers drivers routes"
  show "\<forall>route \<in> set routes. \<forall>i. r_assignedDriverId route = Some i \<longrightarrow>
        (i \<noteq> [] \<longleftrightarrow> i \<in> d_id ` set drivers)"
  proof (intro ballI allI impI)
    fix route i
    assume r: "route \<in> set routes" and a: "r_assignedDriverId route = Some i"
    have "route \<in> set (getUnassignedRoutes routes) \<longleftrightarrow>
          route \<notin> routesOfCurrentDrivers drivers routes"
      using eq r by blast
    then have "i = [] \<longleftrightarrow> \<not> (\<exists>driver \<in> set drivers. i = d_id driver)"
      using r a by (simp add: getUnassignedRoutes_member routesOfCurrentDrivers_member)
    then show "i \<noteq> [] \<longleftrightarrow> i \<in> d_id ` set drivers"
      by blast
  qed
next
  assume refs: "\<forall>route \<in> set routes. \<forall>i. r_assignedDriverId route = Some i \<longrightarrow>
        (i \<noteq> [] \<longleftrightarrow> i \<in> d_id ` set drivers)"
  have "route \<in> set (getUnassignedRoutes routes) \<longleftrightarrow>
        route \<in> set routes - routesOfCurrentDrivers drivers routes" for route
  proof (cases "r_assignedDriverId route")
    case None
    then show ?thesis
      by (simp add: getUnassignedRoutes_member routesOfCurrentDrivers_member)
  next
    case (Some i)
    show ?thesis
    proof (cases "route \<in> set routes")
      case True
      with refs Some have "i \<noteq> [] \<longleftrightarrow> i \<in> d_id ` set drivers"
        by blast
      with Some True show ?thesis
        by (auto simp: getUnassignedRoutes_member routesOfCurrentDrivers_member)
    next
      case False
      then show ?thesis
        by (simp add: getUnassignedRoutes_member)
    qed
  qed
  then show "set (getUnassignedRoutes routes) =
      set routes - routesOfCurrentDrivers drivers routes"
    by blast
qed

text \<open>
  C4, as the code has it. \<open>getUnassignedRoutes\<close> returns exactly the routes whose
  \<open>assignedDriverId\<close> is absent or the empty string; these are the routes without
  \<open>assignedDriverId\<close> exactly when no route holds the empty string, whatever the driver
  store contains. The result is the complement, within the route collection, of the
  union of \<open>getRoutesByDriver(d)\<close> over the current driver ids exactly when every
  non-empty \<open>assignedDriverId\<close> of a route is the id of a current driver (no dangling
  reference) and an empty one is not.
\<close>

theorem getUnassignedRoutes_complement:
  "getUnassignedRoutes routes =
     filter (\<lambda>route. r_assignedDriverId route = None \<or> r_assignedDriverId route = Some [])
       routes \<and>
   (getUnassignedRoutes routes = specUnassignedRoutes routes \<longleftrightarrow>
      (\<forall>route \<in> set routes. r_assignedDriverId route \<noteq> Some [])) \<and>
   (set (getUnassignedRoutes routes) = set routes - routesOfCurrentDrivers drivers routes \<longleftrightarrow>
      (\<forall>route \<in> set routes. \<forall>i. r_assignedDriverId route = Some i \<longrightarrow>
         (i \<noteq> [] \<longleftrightarrow> i \<in> d_id ` set drivers)))"
  using getUnassignedRoutes_falsy [of routes] getUnassignedRoutes_spec_iff [of routes]
    getUnassignedRoutes_complement_iff [of routes drivers]
  by (intro conjI)

theorem getUnassignedRoutes_complement_witness:
  "getUnassignedRoutes [rt001 8 10, (rt001 11 12)\<lparr>r_assignedDriverId := None\<rparr>] =
     specUnassignedRoutes [rt001 8 10, (rt001 11 12)\<lparr>r_assignedDriverId := None\<rparr>] \<and>
   specUnassignedRoutes [rt001 8 10, (rt001 11 12)\<lparr>r_assignedDriverId := None\<rparr>] =
     [(rt001 11 12)\<lparr>r_assignedDriverId := None\<rparr>] \<and>
   set (getUnassignedRoutes [rt001 8 10, (rt001 11 12)\<lparr>r_assignedDriverId := None\<rparr>]) =
     set [rt001 8 10, (rt001 11 12)\<lparr>r_assignedDriverId := None\<rparr>] -
     routesOfCurrentDrivers [jane] [rt001 8 10, (rt001 11 12)\<lparr>r_assignedDriverId := None\<rparr>]"
proof -
  let ?routes = "[rt001 8 10, (rt001 11 12)\<lparr>r_assignedDriverId := None\<rparr>]"
  have nonempty: "\<forall>route \<in> set ?routes. r_assignedDriverId route \<noteq> Some []"
    by (simp add: rt001_def)
  have refs: "\<forall>route \<in> set ?routes. \<forall>i. r_assignedDriverId route = Some i \<longrightarrow>
      (i \<noteq> [] \<longleftrightarrow> i \<in> d_id ` set [jane])"
    by (auto simp: rt001_def jane_def)
  have spec: "specUnassignedRoutes ?routes = [(rt001 11 12)\<lparr>r_assignedDriverId := None\<rparr>]"
    by (simp add: specUnassignedRoutes_def rt001_def)
  show ?thesis
    using nonempty refs spec getUnassignedRoutes_complement [of ?routes "[jane]"]
    by blast
qed

text \<open>
  A dangling reference: with no driver in the driver store, route RT001, which names
  driver \<open>d1\<close>, is neither unassigned nor a route of a current driver. An empty id:
  a route whose \<open>assignedDriverId\<close> is the empty string has an \<open>assignedDriverId\<close>
  and is returned by \<open>getUnassignedRoutes\<close>.
\<close>

theorem getUnassignedRoutes_dangling_counterexample:
  "set (getUnassignedRoutes [rt001 8 10]) \<noteq>
     set [rt001 8 10] - routesOfCurrentDrivers [] [rt001 8 10] \<and>
   getUnassignedRoutes [(rt001 8 10)\<lparr>r_assignedDriverId := Some []\<rparr>] \<noteq>
     specUnassignedRoutes [(rt001 8 10)\<lparr>r_assignedDriverId := Some []\<rparr>]"
  by (simp add: getUnassignedRoutes_def specUnassignedRoutes_def routesOfCurrentDrivers_def
      rt001_def)

section \<open>Search and status filter\<close>

lemma sublist_asciiToLowerCase:
  "sublist s t \<Longrightarrow> sublist (asciiToLowerCase s) (asciiToLowerCase t)"
  unfolding asciiToLowerCase_def by (rule map_mono_sublist)

lemma isAscii_sublist: "sublist s t \<Longrightarrow> isAscii t \<Longrightarrow> isAscii s"
  using set_mono_sublist [of s t] by (auto simp: isAscii_def list_all_iff)

lemma toLowerChar_fixed: "\<not> isLetter c \<Longrightarrow> toLowerChar c = c"
  by (auto simp: isLetter_def toLowerChar_def Let_def)

lemma toLowerChar_letter: "isLetter c \<Longrightarrow> isLetter (toLowerChar c)"
  by (auto simp: isLetter_def toLowerChar_def Let_def)

lemma toLowerChar_changed: "toLowerChar c \<noteq> c \<Longrightarrow> isLetter (toLowerChar c)"
  using toLowerChar_fixed toLowerChar_letter by metis

lemma asciiToLowerCase_no_letters:
  "\<forall>c \<in> set s. \<not> isLetter c \<Longrightarrow> asciiToLowerCase s = s"
  by (induction s) (auto simp: asciiToLowerCase_def toLowerChar_fixed)

lemma asciiToLowerCase_back:
  "\<forall>c \<in> set (asciiToLowerCase s). \<not> isLetter c \<Longrightarrow> asciiToLowerCase s = s"
  unfolding asciiToLowerCase_def
  by (induction s) (auto dest: toLowerChar_changed)

lemma phone_literal_match:
  assumes "\<forall>c \<in> set phone. \<not> isLetter c"
  shows "sublist q phone \<longleftrightarrow> sublist (asciiToLowerCase q) (asciiToLowerCase phone)"
proof
  assume "sublist q phone"
  then show "sublist (asciiToLowerCase q) (asciiToLowerCase phone)"
    by (rule sublist_asciiToLowerCase)
next
  assume "sublist (asciiToLowerCase q) (asciiToLowerCase phone)"
  then have sub: "sublist (asciiToLowerCase q) phone"
    using assms by (simp add: asciiToLowerCase_no_letters)
  then have "set (asciiToLowerCase q) \<subseteq> set phone"
    by (rule set_mono_sublist)
  then have "asciiToLowerCase q = q"
    using assms by (intro asciiToLowerCase_back) auto
  with sub show "sublist q phone"
    by simp
qed

lemma foldsAscii_ascii: "foldsAscii asciiToLowerCase"
  by (simp add: foldsAscii_def)

lemma driverSearchStep_member:
  "driver \<in> set (driverSearchStep toLowerCase driverSearch drivers) \<longleftrightarrow>
     driver \<in> set drivers \<and>
     (sublist (toLowerCase driverSearch) (toLowerCase (d_name driver)) \<or>
      sublist (toLowerCase driverSearch) (toLowerCase (d_licenseId driver)) \<or>
      sublist driverSearch (d_phone driver))"
  by (auto simp: driverSearchStep_def includes_str_def)

text \<open>
  C3, as the code has it. With the status filter at \<open>all\<close>, a driver is in the search
  result exactly when it is in the collection and the query in lower case is a
  substring of the name in lower case or of the licence id in lower case, or the query
  as typed is a substring of the phone; this holds for every case folding. For ASCII
  text, where the case folding is known, a query that differs only in case from a
  substring of the licence id matches; and for an ASCII query and an ASCII phone
  without letters the literal comparison of the phone is the same as the comparison
  without regard to case.
\<close>

theorem driver_search_matches:
  "(driver \<in> set (filteredDrivers toLowerCase drivers DF_all driverSearch) \<longleftrightarrow>
      driver \<in> set drivers \<and>
      (sublist (toLowerCase driverSearch) (toLowerCase (d_name driver)) \<or>
       sublist (toLowerCase driverSearch) (toLowerCase (d_licenseId driver)) \<or>
       sublist driverSearch (d_phone driver))) \<and>
   (foldsAscii toLowerCase \<and> isAscii driverSearch \<and> isAscii (d_licenseId driver) \<and>
    driver \<in> set drivers \<and> sublist s (d_licenseId driver) \<and>
    asciiToLowerCase driverSearch = asciiToLowerCase s \<longrightarrow>
      driver \<in> set (filteredDrivers toLowerCase drivers DF_all driverSearch)) \<and>
   (foldsAscii toLowerCase \<and> isAscii driverSearch \<and> isAscii (d_phone driver) \<and>
    (\<forall>c \<in> set (d_phone driver). \<not> isLetter c) \<longrightarrow>
      (driver \<in> set (filteredDrivers toLowerCase drivers DF_all driverSearch) \<longleftrightarrow>
         driver \<in> set drivers \<and> specDriverMatches toLowerCase driverSearch driver))"
proof -
  have all: "filteredDrivers toLowerCase drivers DF_all driverSearch =
      driverSearchStep toLowerCase driverSearch drivers"
    by (simp add: filteredDrivers_def driverStatusStep_def)
  have lic: "sublist (toLowerCase driverSearch) (toLowerCase (d_licenseId driver))"
    if "foldsAscii toLowerCase" "isAscii driverSearch" "isAscii (d_licenseId driver)"
      "sublist s (d_licenseId driver)" "asciiToLowerCase driverSearch = asciiToLowerCase s"
  proof -
    have "toLowerCase driverSearch = asciiToLowerCase s"
      using that(1,2,5) by (simp add: foldsAscii_def)
    moreover have "toLowerCase (d_licenseId driver) = asciiToLowerCase (d_licenseId driver)"
      using that(1,3) by (simp add: foldsAscii_def)
    ultimately show ?thesis
      using sublist_asciiToLowerCase [OF that(4)] by simp
  qed
  have phone: "sublist driverSearch (d_phone driver) \<longleftrightarrow>
      sublist (toLowerCase driverSearch) (toLowerCase (d_phone driver))"
    if "foldsAscii toLowerCase" "isAscii driverSearch" "isAscii (d_phone driver)"
      "\<forall>c \<in> set (d_phone driver). \<not> isLetter c"
  proof -
    have "toLowerCase driverSearch = asciiToLowerCase driverSearch"
      "toLowerCase (d_phone driver) = asciiToLowerCase (d_phone driver)"
      using that(1,2,3) by (simp_all add: foldsAscii_def)
    then show ?thesis
      using phone_literal_match [OF that(4), of driverSearch] by simp
  qed
  show ?thesis
    unfolding all driverSearchStep_member specDriverMatches_def
    using lic phone by blast
qed

theorem driver_search_matches_witness:
  "foldsAscii asciiToLowerCase \<and> isAscii ''ic12'' \<and> isAscii (d_licenseId jane) \<and>
   isAscii (d_phone jane) \<and>
   jane \<in> set [jane] \<and> sublist ''IC12'' (d_licenseId jane) \<and>
   asciiToLowerCase ''ic12'' = asciiToLowerCase ''IC12'' \<and>
   list_all (\<lambda>c. \<not> isLetter c) (d_phone jane) \<and>
   jane \<in> set (filteredDrivers asciiToLowerCase [jane] DF_all ''ic12'') \<and>
   specDriverMatches asciiToLowerCase ''ic12'' jane"
proof -
  have mem: "jane \<in> set [jane]"
    by simp
  have ascii: "isAscii ''ic12'' \<and> isAscii (d_licenseId jane) \<and> isAscii (d_phone jane)"
    by code_simp
  have sub: "sublist ''IC12'' (d_licenseId jane)"
    by code_simp
  have low: "asciiToLowerCase ''ic12'' = asciiToLowerCase ''IC12''"
    by code_simp
  have phone: "\<forall>c \<in> set (d_phone jane). \<not> isLetter c"
    by code_simp
  show ?thesis
    using foldsAscii_ascii mem ascii sub low phone
      driver_search_matches [of jane asciiToLowerCase "[jane]" "''ic12''" "''IC12''"]
    unfolding list_all_iff by blast
qed

text \<open>
  The phone is compared as typed: the query \<open>call\<close> is, without regard to case, a
  substring of the phone \<open>555-CALL\<close>, and the search does not return the driver. The
  strings are ASCII text, on which the case folding is \<open>asciiToLowerCase\<close>.
\<close>

theorem driver_search_phone_counterexample:
  "specDriverMatches asciiToLowerCase ''call'' (jane\<lparr>d_phone := ''555-CALL''\<rparr>) \<and>
   jane\<lparr>d_phone := ''555-CALL''\<rparr> \<notin>
     set (filteredDrivers asciiToLowerCase [jane\<lparr>d_phone := ''555-CALL''\<rparr>] DF_all ''call'')"
  by code_simp

text \<open>
  C9. On every snapshot, for every search string and every status filter, the search
  followed by the status filter, which is what \<open>filteredDrivers\<close> and
  \<open>filteredRoutes\<close> compute, gives the same list as the status filter followed by the
  search, for every case folding.
\<close>

theorem search_and_status_filter_commute:
  "filteredDrivers toLowerCase drivers driverFilter driverSearch =
     driverSearchStep toLowerCase driverSearch (driverStatusStep driverFilter drivers) \<and>
   filteredRoutes toLowerCase routes routeFilter routeSearch =
     routeSearchStep toLowerCase routeSearch (routeStatusStep routeFilter routes)"
proof
  show "filteredDrivers toLowerCase drivers driverFilter driverSearch =
     driverSearchStep toLowerCase driverSearch (driverStatusStep driverFilter drivers)"
    by (cases driverFilter)
       (auto simp: filteredDrivers_def driverSearchStep_def driverStatusStep_def
          intro: filter_cong)
  show "filteredRoutes toLowerCase routes routeFilter routeSearch =
     routeSearchStep toLowerCase routeSearch (routeStatusStep routeFilter routes)"
    by (cases routeFilter)
       (auto simp: filteredRoutes_def routeSearchStep_def routeStatusStep_def
          intro: filter_cong)
qed

theorem search_and_status_filter_commute_witness:
  "filteredDrivers asciiToLowerCase [jane, jane\<lparr>d_id := ''d2'', d_status := On_leave\<rparr>]
     DF_available ''JANE'' = [jane] \<and>
   driverSearchStep asciiToLowerCase ''JANE''
     (driverStatusStep DF_available [jane, jane\<lparr>d_id := ''d2'', d_status := On_leave\<rparr>]) =
     [jane] \<and>
   filteredRoutes asciiToLowerCase [rt001 8 10, (rt001 11 12)\<lparr>r_assignedDriverId := None\<rparr>]
     RF_assigned ''rt0'' = [rt001 8 10] \<and>
   routeSearchStep asciiToLowerCase ''rt0''
     (routeStatusStep RF_assigned [rt001 8 10, (rt001 11 12)\<lparr>r_assignedDriverId := None\<rparr>]) =
     [rt001 8 10]"
proof -
  have a: "driverSearchStep asciiToLowerCase ''JANE''
     (driverStatusStep DF_available [jane, jane\<lparr>d_id := ''d2'', d_status := On_leave\<rparr>]) =
     [jane]"
    by code_simp
  have b: "routeSearchStep asciiToLowerCase ''rt0''
     (routeStatusStep RF_assigned [rt001 8 10, (rt001 11 12)\<lparr>r_assignedDriverId := None\<rparr>]) =
     [rt001 8 10]"
    by code_simp
  show ?thesis
    using a b
      search_and_status_filter_commute
        [of asciiToLowerCase "[jane, jane\<lparr>d_id := ''d2'', d_status := On_leave\<rparr>]"
            DF_available "''JANE''"
            "[rt001 8 10, (rt001 11 12)\<lparr>r_assignedDriverId := None\<rparr>]" RF_assigned "''rt0''"]
    by simp
qed

section \<open>Properties of the calendar availability\<close>

lemmas date_defs = isSameDay_def startOfDay_def setHours_def isWithinInterval_def
  msPerDay_def msPerHour_def day_2024_01_01_def

lemma slot_ordered: "setHours day h \<le> setHours day (h + 1)"
  by (simp add: setHours_def msPerHour_def)

lemma routeInSlot_iff:
  "routeInSlot driver day timeSlot route \<longleftrightarrow>
     r_assignedDriverId route = Some (d_id driver) \<and>
     isSameDay (r_startTime route) day \<and>
     ((min (r_startTime route) (r_endTime route) \<le> setHours day (hour timeSlot) \<and>
       setHours day (hour timeSlot) \<le> max (r_startTime route) (r_endTime route)) \<or>
      (setHours day (hour timeSlot) \<le> r_startTime route \<and>
       r_startTime route \<le> setHours day (hour timeSlot + 1)))"
  using slot_ordered [of day "hour timeSlot"]
  by (auto simp: routeInSlot_def Let_def isWithinInterval_def)

lemma status_by_find:
  "d_status driver \<noteq> On_leave \<Longrightarrow>
   av_status (getDriverAvailability routes driver day timeSlot) =
     (if \<exists>route \<in> set routes. routeInSlot driver day timeSlot route then Assigned
      else Available)"
  by (auto simp: getDriverAvailability_def find_None_iff split: option.splits
      dest: find_Some_member)

lemma scenario_8_10:
  assumes "d_status driver \<noteq> On_leave"
    and "r_assignedDriverId route = Some (d_id driver)"
    and "r_startTime route = day_2024_01_01 + 8 * msPerHour"
    and "r_endTime route = day_2024_01_01 + 10 * msPerHour"
  shows "av_status (getDriverAvailability [route] driver day_2024_01_01
           (timeSlot\<lparr>hour := 9\<rparr>)) = Assigned"
    and "av_status (getDriverAvailability [route] driver day_2024_01_01
           (timeSlot\<lparr>hour := 14\<rparr>)) = Available"
  using assms
  by (simp_all add: status_by_find routeInSlot_iff date_defs)

text \<open>
  C1, as the code has it. For a driver who is not on leave, every day and every hourly
  slot, the classification is \<open>assigned\<close> exactly when some route has the driver's id
  as \<open>assignedDriverId\<close>, starts on the query day, and passes the overlap test of the
  code: the slot start lies in the closed interval between the route start and the
  route end (the end points taken in ascending order), or the route start lies in the
  closed interval from the slot start to the slot end; otherwise it is \<open>available\<close>.
  For a route from 08:00 to 10:00 on 2024-01-01 the slot at hour 9 is \<open>assigned\<close> and
  the slot at hour 14 is \<open>available\<close>.
\<close>

theorem availability_classification:
  assumes "d_status driver \<noteq> On_leave"
  shows "(av_status (getDriverAvailability routes driver day timeSlot) = Assigned \<longleftrightarrow>
            (\<exists>route \<in> set routes.
               r_assignedDriverId route = Some (d_id driver) \<and>
               isSameDay (r_startTime route) day \<and>
               ((min (r_startTime route) (r_endTime route) \<le> setHours day (hour timeSlot) \<and>
                 setHours day (hour timeSlot) \<le> max (r_startTime route) (r_endTime route)) \<or>
                (setHours day (hour timeSlot) \<le> r_startTime route \<and>
                 r_startTime route \<le> setHours day (hour timeSlot + 1))))) \<and>
         (av_status (getDriverAvailability routes driver day timeSlot) \<noteq> Assigned \<longrightarrow>
            av_status (getDriverAvailability routes driver day timeSlot) = Available) \<and>
         (r_assignedDriverId r = Some (d_id driver) \<and>
          r_startTime r = day_2024_01_01 + 8 * msPerHour \<and>
          r_endTime r = day_2024_01_01 + 10 * msPerHour \<longrightarrow>
            av_status (getDriverAvailability [r] driver day_2024_01_01
              (timeSlot\<lparr>hour := 9\<rparr>)) = Assigned \<and>
            av_status (getDriverAvailability [r] driver day_2024_01_01
              (timeSlot\<lparr>hour := 14\<rparr>)) = Available)"
  using assms scenario_8_10 [OF assms, of r timeSlot]
  by (simp add: status_by_find routeInSlot_iff)

theorem availability_classification_witness:
  "d_status jane \<noteq> On_leave \<and>
   r_assignedDriverId (rt001 8 10) = Some (d_id jane) \<and>
   r_startTime (rt001 8 10) = day_2024_01_01 + 8 * msPerHour \<and>
   r_endTime (rt001 8 10) = day_2024_01_01 + 10 * msPerHour \<and>
   av_status (getDriverAvailability [rt001 8 10] jane day_2024_01_01
     ((slotAt 6)\<lparr>hour := 9\<rparr>)) = Assigned \<and>
   av_status (getDriverAvailability [rt001 8 10] jane day_2024_01_01
     ((slotAt 6)\<lparr>hour := 14\<rparr>)) = Available \<and>
   av_status (getDriverAvailability [rt001 8 10] jane day_2024_01_01 (slotAt 6)) = Available"
proof -
  have status: "d_status jane \<noteq> On_leave"
    by (simp add: jane_def)
  have route: "r_assignedDriverId (rt001 8 10) = Some (d_id jane) \<and>
      r_startTime (rt001 8 10) = day_2024_01_01 + 8 * msPerHour \<and>
      r_endTime (rt001 8 10) = day_2024_01_01 + 10 * msPerHour"
    by (simp add: jane_def rt001_def)
  have early: "\<not> (\<exists>route \<in> set [rt001 8 10].
               r_assignedDriverId route = Some (d_id jane) \<and>
               isSameDay (r_startTime route) day_2024_01_01 \<and>
               ((min (r_startTime route) (r_endTime route) \<le>
                   setHours day_2024_01_01 (hour (slotAt 6)) \<and>
                 setHours day_2024_01_01 (hour (slotAt 6)) \<le>
                   max (r_startTime route) (r_endTime route)) \<or>
                (setHours day_2024_01_01 (hour (slotAt 6)) \<le> r_startTime route \<and>
                 r_startTime route \<le> setHours day_2024_01_01 (hour (slotAt 6) + 1))))"
    by (simp add: rt001_def slotAt_def date_defs)
  show ?thesis
    using status route early
      availability_classification
        [OF status, of "[rt001 8 10]" day_2024_01_01 "slotAt 6" "rt001 8 10"]
    by blast
qed

text \<open>
  The second interval is closed at the slot end: a route from 10:00 to 11:00 makes the
  slot at hour 9, which ends at 10:00, \<open>assigned\<close>, where the half-open test of the
  specification gives \<open>available\<close>.
\<close>

theorem availability_half_open_counterexample:
  "d_status jane \<noteq> On_leave \<and>
   av_status (getDriverAvailability [rt001 10 11] jane day_2024_01_01 (slotAt 9)) = Assigned \<and>
   specClassification [rt001 10 11] jane day_2024_01_01 (slotAt 9) = Available"
  by (simp add: status_by_find routeInSlot_iff specClassification_def specOverlap_def
      jane_def rt001_def slotAt_def date_defs)

text \<open>
  C2. For a driver whose status is \<open>on_leave\<close> the classification is \<open>on_leave\<close>, with
  no route attached, for every day, every slot and every content of the route store.
\<close>

theorem on_leave_regardless_of_routes:
  assumes "d_status driver = On_leave"
  shows "getDriverAvailability routes driver day timeSlot =
           \<lparr>av_driver = driver, av_status = On_leave, av_route = None\<rparr>"
  using assms by (simp add: getDriverAvailability_def)

theorem on_leave_regardless_of_routes_witness:
  "d_status (jane\<lparr>d_status := On_leave\<rparr>) = On_leave \<and>
   getDriverAvailability [rt001 8 10] (jane\<lparr>d_status := On_leave\<rparr>) day_2024_01_01 (slotAt 9) =
     \<lparr>av_driver = jane\<lparr>d_status := On_leave\<rparr>, av_status = On_leave, av_route = None\<rparr>"
proof -
  have leave: "d_status (jane\<lparr>d_status := On_leave\<rparr>) = On_leave"
    by simp
  show ?thesis
    using leave on_leave_regardless_of_routes [OF leave, of "[rt001 8 10]" day_2024_01_01 "slotAt 9"]
    by simp
qed

text \<open>
  C10. When one or more routes of a driver who is not on leave pass the test of the cell,
  with \<open>r\<close> the first of them in the order of the store, the classification is
  \<open>assigned\<close> and the route attached is \<open>r\<close>, whatever routes follow.
\<close>

theorem first_matching_route_reported:
  assumes "d_status driver \<noteq> On_leave"
    and "filter (routeInSlot driver day timeSlot) routes = r # rest"
  shows "getDriverAvailability routes driver day timeSlot =
           \<lparr>av_driver = driver, av_status = Assigned, av_route = Some r\<rparr>"
proof -
  have "find (routeInSlot driver day timeSlot) routes = Some r"
    using assms(2) by (rule find_first_of_filter)
  then show ?thesis
    using assms(1) by (simp add: getDriverAvailability_def)
qed

theorem first_matching_route_reported_witness:
  "d_status jane \<noteq> On_leave \<and>
   filter (routeInSlot jane day_2024_01_01 (slotAt 9))
     [rt001 11 12, rt001 8 10, (rt001 9 10)\<lparr>r_id := ''r2''\<rparr>] =
     [rt001 8 10, (rt001 9 10)\<lparr>r_id := ''r2''\<rparr>] \<and>
   getDriverAvailability [rt001 11 12, rt001 8 10, (rt001 9 10)\<lparr>r_id := ''r2''\<rparr>] jane
     day_2024_01_01 (slotAt 9) =
     \<lparr>av_driver = jane, av_status = Assigned, av_route = Some (rt001 8 10)\<rparr>"
proof -
  have status: "d_status jane \<noteq> On_leave"
    by (simp add: jane_def)
  have matches: "filter (routeInSlot jane day_2024_01_01 (slotAt 9))
     [rt001 11 12, rt001 8 10, (rt001 9 10)\<lparr>r_id := ''r2''\<rparr>] =
     [rt001 8 10, (rt001 9 10)\<lparr>r_id := ''r2''\<rparr>]"
    by (simp add: routeInSlot_iff jane_def rt001_def slotAt_def date_defs)
  show ?thesis
    using status matches first_matching_route_reported [OF status matches]
    by simp
qed

end
